theory Spec2Isabelle
  imports Main "HOL-Library.Sublist"
begin

section \<open>Text files, lines and Python string helpers\<close>

text \<open>
  A text file is modelled by its decoded content, a \<^typ>\<open>string\<close>: the characters that
  \<^verbatim>\<open>open(filename)\<close> delivers in text mode, where a line ends with the newline character.
  Iterating over an open handle (\<^verbatim>\<open>for line in handle\<close>, \<^verbatim>\<open>handle.readline()\<close>,
  \<^verbatim>\<open>handle.readlines()\<close>) yields the lines of the content, each one with its
  terminating newline; only the last line may lack it, and an empty file has no line.
  \<^verbatim>\<open>part_file.writelines(lines)\<close> writes the concatenation of the lines.
\<close>

definition newline :: char where
  "newline = CHR 0x0A"

fun lines_from :: "string \<Rightarrow> string \<Rightarrow> string list" where
  "lines_from cur [] = (if cur = [] then [] else [cur])"
| "lines_from cur (c # cs) =
     (if c = newline then (cur @ [c]) # lines_from [] cs else lines_from (cur @ [c]) cs)"

definition readlines :: "string \<Rightarrow> string list" where
  "readlines content = lines_from [] content"

definition writelines :: "string list \<Rightarrow> string" where
  "writelines ls = concat ls"

text \<open>
  The file on disk is its raw content. In text mode \<^verbatim>\<open>open(filename)\<close> translates the
  line endings while reading: a carriage return followed by a line feed, and a carriage return
  alone, both arrive as one newline. The splitters read through this translation, so the
  text of a raw file is \<open>open_text raw\<close>; the parts are written with
  \<^verbatim>\<open>open(part_path, 'w')\<close>, which on a POSIX system writes the newline as a line feed, so
  a part on disk is the text written.
\<close>

definition carriage_return :: char where
  "carriage_return = CHR 0x0D"

fun open_text :: "string \<Rightarrow> string" where
  "open_text [] = []"
| "open_text [c] = [if c = carriage_return then newline else c]"
| "open_text (c # d # cs) =
     (if c = carriage_return \<and> d = newline then newline # open_text cs
      else if c = carriage_return then newline # open_text (d # cs)
      else c # open_text (d # cs))"

definition startswith :: "string \<Rightarrow> string \<Rightarrow> bool" where
  \<comment> \<open>\<^verbatim>\<open>line.startswith(p)\<close>\<close>
  "startswith line p = prefix p line"

section \<open>Errors and split parameters\<close>

datatype error =
    Exception string
  | ValueError string
  | IndexError string
  | ZeroDivisionError string
  | NotImplementedError string
  | UnboundLocalError string

fun unicodify :: "error \<Rightarrow> string" where
  "unicodify (Exception m) = m"
| "unicodify (ValueError m) = m"
| "unicodify (IndexError m) = m"
| "unicodify (ZeroDivisionError m) = m"
| "unicodify (NotImplementedError m) = m"
| "unicodify (UnboundLocalError m) = m"

record split_params =
  split_mode :: string
  split_size :: int

text \<open>
  What a call of a \<^verbatim>\<open>split\<close> method leaves behind: the part files written, in the order
  of their creation (one fresh directory of \<^verbatim>\<open>subdir_generator_function\<close> each), the
  messages given to \<^verbatim>\<open>log.error\<close>, and the exception that left the call, if any.
\<close>

record split_run =
  parts :: "string list"
  logged :: "string list"
  raised :: "error option"

section \<open>SDF.split\<close>

text \<open>
  \<^verbatim>\<open>_read_sdf_records\<close>: the generator appends each line to \<^verbatim>\<open>lines\<close> and yields
  the list when the line starts with \<^verbatim>\<open>$$$$\<close>. Lines left in the list at the end of the
  file are never yielded.
\<close>

fun read_sdf_records :: "string list \<Rightarrow> string list \<Rightarrow> string list list" where
  "read_sdf_records lines [] = []"
| "read_sdf_records lines (line # handle) =
     (if startswith line ''$$$$''
      then (lines @ [line]) # read_sdf_records [] handle
      else read_sdf_records (lines @ [line]) handle)"

text \<open>
  The loop over \<^verbatim>\<open>enumerate(records, start=1)\<close>, shared in shape by the SDF, MOL2 and
  CML splitters: \<^verbatim>\<open>counter % chunk_size\<close> raises \<^verbatim>\<open>ZeroDivisionError\<close> for a zero
  chunk size; the remainder is written after the loop when it is not empty. The state is
  the list of accumulated lines and the parts written so far.
\<close>

fun split_loop ::
  "int \<Rightarrow> int \<Rightarrow> string list list \<Rightarrow> string list \<Rightarrow> string list \<Rightarrow> string list \<times> error option"
where
  "split_loop chunk_size counter [] accumulated written =
     (if accumulated \<noteq> [] then written @ [writelines accumulated] else written, None)"
| "split_loop chunk_size counter (record # records) accumulated written =
     (let accumulated' = accumulated @ record in
      if chunk_size = 0
      then (written, Some (ZeroDivisionError ''integer division or modulo by zero''))
      else if counter mod chunk_size = 0
      then split_loop chunk_size (counter + 1) records [] (written @ [writelines accumulated'])
      else split_loop chunk_size (counter + 1) records accumulated' written)"

definition split_try :: "(string list \<times> error option) \<Rightarrow> split_run" where
  \<comment> \<open>the \<^verbatim>\<open>try: ... except Exception as e: log.error(...); raise\<close> around the loop\<close>
  "split_try r =
     (case snd r of
        None \<Rightarrow> \<lparr>parts = fst r, logged = [], raised = None\<rparr>
      | Some e \<Rightarrow> \<lparr>parts = fst r, logged = [''Unable to split files: '' @ unicodify e],
                    raised = Some e\<rparr>)"

definition no_run :: "error option \<Rightarrow> split_run" where
  "no_run e = \<lparr>parts = [], logged = [], raised = e\<rparr>"

text \<open>
  \<^verbatim>\<open>SDF.split\<close>. Each input dataset is given by the text that \<^verbatim>\<open>open\<close> delivers for its
  file, \<open>open_text raw\<close> for the raw content \<open>raw\<close>.
\<close>

definition SDF_split :: "string list \<Rightarrow> split_params option \<Rightarrow> split_run" where
  "SDF_split input_datasets params =
     (case params of
        None \<Rightarrow> no_run None
      | Some p \<Rightarrow>
          if length input_datasets > 1
          then no_run (Some (Exception ''SD-file splitting does not support multiple files''))
          else if split_mode p = ''number_of_parts''
          then no_run (Some (Exception
                 (''Split mode \"'' @ split_mode p @ ''\" is currently not implemented for SD-files.'')))
          else if split_mode p = ''to_size''
          then (case input_datasets of
                  [] \<Rightarrow> split_try ([], Some (IndexError ''list index out of range''))
                | content # _ \<Rightarrow>
                    split_try (split_loop (split_size p) 1
                                 (read_sdf_records [] (readlines content)) [] []))
          else no_run (Some (Exception (''Unsupported split mode '' @ split_mode p))))"

section \<open>Record counting\<close>

text \<open>
  Modelled from the spec: \<^verbatim>\<open>count_special_lines\<close> of
  \<^verbatim>\<open>galaxy.datatypes.util.generic_util\<close> is not among the sources. The spec has it scan
  the file once, "counting lines matching the format's sentinel pattern"; the pattern is a
  predicate on a line here. It is given the name of the file and counts in the raw content,
  with no translation of line endings: a line ends at a line feed, and a carriage return
  before it belongs to the line. \<^verbatim>\<open>SDF.set_meta\<close> passes the pattern
  \<^verbatim>\<open>^\$\$\$\$$\<close>: the line, without its line feed, is exactly \<^verbatim>\<open>$$$$\<close>.
\<close>

definition matches_sdf_end :: "string \<Rightarrow> bool" where
  "matches_sdf_end line = (line = ''$$$$'' \<or> line = ''$$$$'' @ [newline])"

definition count_special_lines :: "(string \<Rightarrow> bool) \<Rightarrow> string \<Rightarrow> nat" where
  "count_special_lines pattern raw = length (filter pattern (readlines raw))"

definition SDF_set_meta :: "string \<Rightarrow> nat" where
  "SDF_set_meta raw = count_special_lines matches_sdf_end raw"

section \<open>Specification vocabulary for the splitter\<close>

text \<open>
  A split plan \<^verbatim>\<open>{mode: "to_size", size: k}\<close>.
\<close>

definition to_size :: "int \<Rightarrow> split_params option" where
  "to_size k = Some \<lparr>split_mode = ''to_size'', split_size = k\<rparr>"

text \<open>
  Groups of \<open>n\<close> consecutive records, the last group holding the remainder.
\<close>

function chunks :: "nat \<Rightarrow> 'a list \<Rightarrow> 'a list list" where
  "chunks n xs = (if n = 0 \<or> xs = [] then [] else take n xs # chunks n (drop n xs))"
  by pat_completeness auto
termination
  by (relation "measure (\<lambda>(n, xs). length xs)") auto

declare chunks.simps [simp del]

text \<open>
  The lines of a file up to and including its last line that starts with \<^verbatim>\<open>$$$$\<close>,
  and the lines after it.
\<close>

definition upto_last_sentinel :: "string list \<Rightarrow> string list" where
  "upto_last_sentinel ls = rev (dropWhile (\<lambda>l. \<not> startswith l ''$$$$'') (rev ls))"

definition after_last_sentinel :: "string list \<Rightarrow> string list" where
  "after_last_sentinel ls = rev (takeWhile (\<lambda>l. \<not> startswith l ''$$$$'') (rev ls))"

text \<open>
  The shape of the lines that iterating over a file yields: every line but the last ends with
  its only newline; the last one may lack it.
\<close>

definition proper_line :: "string \<Rightarrow> bool" where
  "proper_line l = (l \<noteq> [] \<and> last l = newline \<and> newline \<notin> set (butlast l))"

definition tail_line :: "string \<Rightarrow> bool" where
  "tail_line l = (l \<noteq> [] \<and> newline \<notin> set l)"

fun wf_lines :: "string list \<Rightarrow> bool" where
  "wf_lines [] = True"
| "wf_lines (l # ls) = (if ls = [] then proper_line l \<or> tail_line l else proper_line l \<and> wf_lines ls)"

text \<open>
  A record as the reader yields it: its last line starts with \<^verbatim>\<open>$$$$\<close> and no line
  before it does.
\<close>

definition record_ok :: "string list \<Rightarrow> bool" where
  "record_ok r = (r \<noteq> [] \<and> startswith (last r) ''$$$$'' \<and>
                  (\<forall>l \<in> set (butlast r). \<not> startswith l ''$$$$''))"

text \<open>
  A record of the SDF format: a molfile block that ends with the line \<^verbatim>\<open>M  END\<close>,
  then a data block that ends with the line \<^verbatim>\<open>$$$$\<close>.
\<close>

definition sdf_record :: "string list \<Rightarrow> string list \<Rightarrow> string list" where
  "sdf_record body data = body @ [''M  END\<newline>''] @ data @ [''$$$$\<newline>'']"

section \<open>More Python string operations\<close>

definition isspace :: "char \<Rightarrow> bool" where
  \<comment> \<open>\<^verbatim>\<open>str.isspace\<close> on the code points below 256\<close>
  "isspace c = (c \<in> set [CHR 0x09, CHR 0x0A, CHR 0x0B, CHR 0x0C, CHR 0x0D,
                            CHR 0x1C, CHR 0x1D, CHR 0x1E, CHR 0x1F, CHR 0x20, CHR 0x85, CHR 0xA0])"

definition lstrip :: "string \<Rightarrow> string" where
  "lstrip s = dropWhile isspace s"

definition rstrip :: "string \<Rightarrow> string" where
  "rstrip s = rev (dropWhile isspace (rev s))"

definition strip :: "string \<Rightarrow> string" where
  "strip s = lstrip (rstrip s)"

definition rstrip_chars :: "string \<Rightarrow> string \<Rightarrow> string" where
  \<comment> \<open>\<^verbatim>\<open>s.rstrip(chars)\<close>\<close>
  "rstrip_chars s chars = rev (dropWhile (\<lambda>c. c \<in> set chars) (rev s))"

fun contains :: "string \<Rightarrow> string \<Rightarrow> bool" where
  \<comment> \<open>\<^verbatim>\<open>sub in s\<close>\<close>
  "contains [] sub = (sub = [])"
| "contains (c # cs) sub = (prefix sub (c # cs) \<or> contains cs sub)"

text \<open>
  \<^verbatim>\<open>s.split(sep)\<close> for a separator that is not empty, which is what every call in the
  module passes (Python raises \<^verbatim>\<open>ValueError\<close> for an empty one).
\<close>

function split_from :: "string \<Rightarrow> string \<Rightarrow> string \<Rightarrow> string list" where
  "split_from sep cur s =
     (if s = [] then [cur]
      else if sep \<noteq> [] \<and> prefix sep s then cur # split_from sep [] (drop (length sep) s)
      else split_from sep (cur @ [hd s]) (tl s))"
  by pat_completeness auto
termination
  by (relation "measure (\<lambda>(sep, cur, s). length s)") auto

declare split_from.simps [simp del]

definition str_split :: "string \<Rightarrow> string \<Rightarrow> string list" where
  "str_split s sep = split_from sep [] s"

section \<open>Sniffers\<close>

text \<open>
  Modelled from the spec: \<^verbatim>\<open>get_headers\<close> of \<^verbatim>\<open>galaxy.datatypes.sniff\<close> is not among
  the sources. The spec's prefix reader "produces a lazy, finite sequence of raw lines,
  stopping at limit or end-of-file, whichever is first; each line is returned with trailing
  newline characters stripped"; the callers index the result as a list of lines, each a
  list of the fields between the separators. No caller modelled here passes a comment
  designator.
\<close>

definition get_headers :: "string \<Rightarrow> string \<Rightarrow> nat \<Rightarrow> string list list" where
  "get_headers file_prefix sep count =
     map (\<lambda>line. str_split (rstrip_chars line [CHR 0x0A, CHR 0x0D]) sep)
       (take count (readlines file_prefix))"

text \<open>
  \<^verbatim>\<open>FPS.sniff_prefix\<close>: \<^verbatim>\<open>header[0][0]\<close> is an index into a list, which raises
  \<^verbatim>\<open>IndexError\<close> when the list is empty.
\<close>

definition FPS_sniff_prefix :: "string \<Rightarrow> error + bool" where
  "FPS_sniff_prefix file_prefix =
     (let header = get_headers file_prefix [CHR 0x09] 1 in
      case header of
        [] \<Rightarrow> Inl (IndexError ''list index out of range'')
      | h0 # _ \<Rightarrow>
          (case h0 of
             [] \<Rightarrow> Inl (IndexError ''list index out of range'')
           | h00 # _ \<Rightarrow> if strip h00 = ''#FPS1'' then Inr True else Inr False))"

text \<open>
  \<^verbatim>\<open>int(s)\<close> on a string: whitespace around the number, an optional sign, then decimal
  digits, single underscores allowed between digits. The conversion strips the whitespace
  of C (tab to carriage return, and the space); of the characters \<^verbatim>\<open>str.isspace\<close> accepts
  besides, those below 128 are left in place and make the conversion fail, the two above
  (\<^verbatim>\<open>0x85\<close>, \<^verbatim>\<open>0xA0\<close>) are turned into spaces first. The sniffer only needs to know
  whether the conversion raises \<^verbatim>\<open>ValueError\<close>.
\<close>

definition isdigit :: "char \<Rightarrow> bool" where
  "isdigit c = (c \<in> set ''0123456789'')"

fun int_digits :: "bool \<Rightarrow> string \<Rightarrow> bool" where
  "int_digits after_digit [] = after_digit"
| "int_digits after_digit (c # cs) =
     (if isdigit c then int_digits True cs
      else if c = CHR ''_'' \<and> after_digit then (cs \<noteq> [] \<and> isdigit (hd cs) \<and> int_digits False cs)
      else False)"

definition ascii_space :: "char \<Rightarrow> bool" where
  "ascii_space c = (c \<in> set [CHR 0x09, CHR 0x0A, CHR 0x0B, CHR 0x0C, CHR 0x0D, CHR 0x20])"

definition int_text :: "string \<Rightarrow> string" where
  "int_text s =
     (let t = map (\<lambda>c. if c = CHR 0x85 \<or> c = CHR 0xA0 then CHR '' '' else c) s
      in dropWhile ascii_space (rev (dropWhile ascii_space (rev t))))"

definition int_parses :: "string \<Rightarrow> bool" where
  "int_parses s =
     (case int_text s of
        [] \<Rightarrow> False
      | c # cs \<Rightarrow> if c = CHR ''+'' \<or> c = CHR ''-'' then int_digits False cs
                  else int_digits False (c # cs))"

text \<open>
  The regular expression of \<^verbatim>\<open>GRO.sniff_prefix\<close>, anchored at the start of the line:
  \<^verbatim>\<open>^[0-9 ]{5}[a-zA-Z0-9 ]{10}[0-9 ]{5}\<close> and then three times
  \<^verbatim>\<open>[0-9 -]{4}\.[0-9]{3}\<close>, 44 characters in all.
\<close>

definition isalnum_ascii :: "char \<Rightarrow> bool" where
  "isalnum_ascii c =
     (c \<in> set ''abcdefghijklmnopqrstuvwxyzABCDEFGHIJKLMNOPQRSTUVWXYZ0123456789'')"

definition gro_coordinate :: "string \<Rightarrow> bool" where
  "gro_coordinate f =
     (length f = 8 \<and> list_all (\<lambda>c. isdigit c \<or> c = CHR '' '' \<or> c = CHR ''-'') (take 4 f) \<and>
      f ! 4 = CHR ''.'' \<and> list_all isdigit (drop 5 f))"

definition gro_atom_line :: "string \<Rightarrow> bool" where
  "gro_atom_line s =
     (list_all (\<lambda>c. isdigit c \<or> c = CHR '' '') (take 5 s) \<and> length (take 5 s) = 5 \<and>
      list_all (\<lambda>c. isalnum_ascii c \<or> c = CHR '' '') (take 10 (drop 5 s)) \<and>
      length (take 10 (drop 5 s)) = 10 \<and>
      list_all (\<lambda>c. isdigit c \<or> c = CHR '' '') (take 5 (drop 15 s)) \<and>
      length (take 5 (drop 15 s)) = 5 \<and>
      gro_coordinate (take 8 (drop 20 s)) \<and>
      gro_coordinate (take 8 (drop 28 s)) \<and>
      gro_coordinate (take 8 (drop 36 s)))"

text \<open>
  \<^verbatim>\<open>GRO.sniff_prefix\<close>: only \<^verbatim>\<open>ValueError\<close> is caught around \<^verbatim>\<open>int(headers[1][0])\<close>;
  \<^verbatim>\<open>headers[2:-1]\<close> skips the first, the second and the last line.
\<close>

definition GRO_sniff_prefix :: "string \<Rightarrow> error + bool" where
  "GRO_sniff_prefix file_prefix =
     (let headers = get_headers file_prefix [CHR 0x0A] 300 in
      case headers of
        [] \<Rightarrow> Inl (IndexError ''list index out of range'')
      | [h0] \<Rightarrow> Inl (IndexError ''list index out of range'')
      | h0 # h1 # _ \<Rightarrow>
          (case h1 of
             [] \<Rightarrow> Inl (IndexError ''list index out of range'')
           | h10 # _ \<Rightarrow>
               if \<not> int_parses h10 then Inr False
               else if list_all (\<lambda>line. case line of [] \<Rightarrow> False | l0 # _ \<Rightarrow> gro_atom_line l0)
                         (butlast (drop 2 headers))
               then Inr True else Inr False))"

text \<open>
  \<^verbatim>\<open>CIF.sniff\<close>. The loop over the lines of the first 1000 characters either returns
  (\<open>Some\<close>) or is left, by \<^verbatim>\<open>break\<close> or at its end (\<open>None\<close>); only then is the file
  opened a second time and read whole. The result tells the answer and whether the whole
  file was read.
\<close>

fun cif_lines :: "string \<Rightarrow> string list \<Rightarrow> bool option" where
  "cif_lines cif [] = None"
| "cif_lines cif (line # rest) =
     (if line = [] then cif_lines cif rest
      else if hd line = CHR ''#'' then cif_lines cif rest
      else if startswith line ''data_''
      then (if contains cif ''_atom_site_fract_'' then Some True else None)
      else Some False)"

definition CIF_sniff :: "string \<Rightarrow> bool \<times> bool" where
  "CIF_sniff content =
     (let cif = take 1000 content in
      case cif_lines cif (str_split cif [newline]) of
        Some answer \<Rightarrow> (answer, False)
      | None \<Rightarrow> (contains content ''_atom_site_fract_'', True))"

section \<open>OBFS: the fastsearch index\<close>

definition OBFS_split :: "'d list \<Rightarrow> split_params option \<Rightarrow> split_run" where
  "OBFS_split input_datasets params =
     (case params of
        None \<Rightarrow> no_run None
      | Some p \<Rightarrow> no_run (Some (NotImplementedError ''Splitting Fastsearch indices is not possible.'')))"

definition OBFS_merge :: "'f list \<Rightarrow> string \<Rightarrow> 'x \<Rightarrow> error option" where
  "OBFS_merge split_files output_file extra_merge_args =
     Some (NotImplementedError ''Merging Fastsearch indices is not supported.'')"

section \<open>FPS.split\<close>

text \<open>
  The loop over the lines of the fingerprint file. Blank lines are skipped; a line that
  starts with \<^verbatim>\<open>#\<close> joins the header lines; any other line is a fingerprint. The test
  \<^verbatim>\<open>fingerprint_counter != 0 and fingerprint_counter % chunk_size == 0\<close> follows every
  line that is not blank.
\<close>

fun fps_loop ::
  "int \<Rightarrow> string list \<Rightarrow> string list \<Rightarrow> string list \<Rightarrow> int \<Rightarrow> string list \<Rightarrow>
   string list \<times> error option"
where
  "fps_loop chunk_size [] header_lines lines_accumulated fingerprint_counter written =
     (if lines_accumulated \<noteq> []
      then written @ [writelines (header_lines @ lines_accumulated)] else written, None)"
| "fps_loop chunk_size (line # handle) header_lines lines_accumulated fingerprint_counter written =
     (if strip line = [] then
        fps_loop chunk_size handle header_lines lines_accumulated fingerprint_counter written
      else
        let header_lines' = (if startswith line ''#'' then header_lines @ [line] else header_lines);
            fingerprint_counter' =
              (if startswith line ''#'' then fingerprint_counter else fingerprint_counter + 1);
            lines_accumulated' =
              (if startswith line ''#'' then lines_accumulated else lines_accumulated @ [line])
        in
          if fingerprint_counter' \<noteq> 0 \<and> chunk_size = 0
          then (written, Some (ZeroDivisionError ''integer division or modulo by zero''))
          else if fingerprint_counter' \<noteq> 0 \<and> fingerprint_counter' mod chunk_size = 0
          then fps_loop chunk_size handle header_lines' [] fingerprint_counter'
                 (written @ [writelines (header_lines' @ lines_accumulated')])
          else fps_loop chunk_size handle header_lines' lines_accumulated' fingerprint_counter'
                 written)"

definition FPS_split :: "string list \<Rightarrow> split_params option \<Rightarrow> split_run" where
  "FPS_split input_datasets params =
     (case params of
        None \<Rightarrow> no_run None
      | Some p \<Rightarrow>
          if length input_datasets > 1
          then no_run (Some (Exception ''FPS-file splitting does not support multiple files''))
          else if split_mode p = ''number_of_parts''
          then no_run (Some (Exception
                 (''Split mode \"'' @ split_mode p @ ''\" is currently not implemented for MOL2-files.'')))
          else if split_mode p = ''to_size''
          then (case input_datasets of
                  [] \<Rightarrow> split_try ([], Some (IndexError ''list index out of range''))
                | content # _ \<Rightarrow>
                    split_try (fps_loop (split_size p) (readlines content) [] [] 0 []))
          else no_run (Some (Exception (''Unsupported split mode '' @ split_mode p))))"

section \<open>Cell.set_meta\<close>

text \<open>
  The optional library \<^verbatim>\<open>ase\<close> is outside the repository; its calls are parameters, each
  of which may raise. \<^verbatim>\<open>ase_read\<close> stands for
  \<^verbatim>\<open>ase_io.read(dataset.file_name, format="castep-cell")\<close>, the other fields for the getters
  that the second \<^verbatim>\<open>try\<close> block calls on its result, in the order of the calls.
\<close>

datatype pbc_value = Flag bool | Flags "bool list"

record ('a, 'n) ase_io =
  ase_read :: "string \<Rightarrow> error + 'a"
  get_chemical_symbols :: "'a \<Rightarrow> error + string list"
  get_positions :: "'a \<Rightarrow> error + string list"
  get_chemical_formula :: "'a \<Rightarrow> error + string"
  get_pbc :: "'a \<Rightarrow> error + pbc_value"
  cellpar :: "'a \<Rightarrow> error + 'n list"

record 'n cell_metadata =
  number_of_molecules :: int
  atom_data :: "string list"
  number_atoms :: "nat option"
  chemical_formula :: "string option"
  is_periodic :: "int option"
  lattice_parameters :: "'n list option"

record 'n meta_run =
  metadata :: "'n cell_metadata"
  errors_logged :: "string list"
  meta_raised :: "error option"

definition apostrophe :: char where
  "apostrophe = CHR 0x27"

definition unbound_e :: error where
  \<comment> \<open>what reading the local name \<^verbatim>\<open>e\<close> raises before any \<^verbatim>\<open>except ... as e\<close> has bound it
      (the wording of the message is that of CPython up to 3.10)\<close>
  "unbound_e = UnboundLocalError
     (''local variable '' @ [apostrophe] @ ''e'' @ [apostrophe] @ '' referenced before assignment'')"

definition is_ValueError :: "error \<Rightarrow> bool" where
  "is_ValueError e = (case e of ValueError m \<Rightarrow> True | _ \<Rightarrow> False)"

definition truth_value :: "pbc_value \<Rightarrow> error + bool" where
  \<comment> \<open>\<^verbatim>\<open>1 if pbc else 0\<close>: an array of more than one element has no truth value\<close>
  "truth_value p =
     (case p of
        Flag b \<Rightarrow> Inr b
      | Flags [] \<Rightarrow> Inr False
      | Flags [b] \<Rightarrow> Inr b
      | Flags _ \<Rightarrow> Inl (ValueError
          ''The truth value of an array with more than one element is ambiguous. Use a.any() or a.all()''))"

definition pbc_any :: "pbc_value \<Rightarrow> bool" where
  "pbc_any p = (case p of Flag b \<Rightarrow> b | Flags bs \<Rightarrow> list_ex (\<lambda>b. b) bs)"

definition metadata_failed :: "'n cell_metadata \<Rightarrow> error \<Rightarrow> 'n meta_run" where
  \<comment> \<open>\<^verbatim>\<open>except Exception as e: log.error("Error finding metadata: %s", unicodify(e)); raise\<close>\<close>
  "metadata_failed md e =
     \<lparr>metadata = md, errors_logged = [''Error finding metadata: '' @ unicodify e],
      meta_raised = Some e\<rparr>"

definition enhanced_metadata :: "('a, 'n) ase_io \<Rightarrow> 'a \<Rightarrow> 'n cell_metadata \<Rightarrow> 'n meta_run" where
  "enhanced_metadata ase ase_data md =
     (case get_chemical_symbols ase ase_data of
        Inl e \<Rightarrow> metadata_failed md e
      | Inr symbols \<Rightarrow>
     (case get_positions ase ase_data of
        Inl e \<Rightarrow> metadata_failed md e
      | Inr positions \<Rightarrow>
     (let md1 = md\<lparr>atom_data := map (\<lambda>(sym, pos). sym @ pos) (zip symbols positions)\<rparr>;
          md2 = md1\<lparr>number_atoms := Some (length (atom_data md1))\<rparr>
      in
     (case get_chemical_formula ase ase_data of
        Inl e \<Rightarrow> metadata_failed md2 e
      | Inr formula \<Rightarrow>
     (let md3 = md2\<lparr>chemical_formula := Some formula\<rparr> in
     (case get_pbc ase ase_data of
        Inl e \<Rightarrow> metadata_failed md3 e
      | Inr pbc \<Rightarrow>
     (let periodic = (case truth_value pbc of Inr b \<Rightarrow> b | Inl e \<Rightarrow> pbc_any pbc);
          md4 = md3\<lparr>is_periodic := Some (if periodic then 1 else 0)\<rparr>
      in
     (case cellpar ase ase_data of
        Inl e \<Rightarrow> metadata_failed md4 e
      | Inr cell_data \<Rightarrow>
          \<lparr>metadata = md4\<lparr>lattice_parameters := Some cell_data\<rparr>, errors_logged = [],
           meta_raised = None\<rparr>))))))))"

definition simple_metadata :: "string \<Rightarrow> 'n cell_metadata \<Rightarrow> 'n meta_run" where
  "simple_metadata cell md =
     (case str_split cell ''%BLOCK POSITIONS'' of
        _ # after # _ \<Rightarrow>
          (let block = butlast (tl (str_split (hd (str_split after ''%ENDBLOCK POSITIONS'')) [newline]));
               md1 = md\<lparr>atom_data := map strip block\<rparr>
           in \<lparr>metadata = md1\<lparr>number_atoms := Some (length (atom_data md1))\<rparr>,
               errors_logged = [], meta_raised = None\<rparr>)
      | _ \<Rightarrow>
          \<lparr>metadata = md,
           errors_logged = [''Error finding atom_data: '' @ ''list index out of range''],
           meta_raised = Some (IndexError ''list index out of range'')\<rparr>)"

definition Cell_set_meta ::
  "('a, 'n) ase_io option \<Rightarrow> string \<Rightarrow> 'n cell_metadata \<Rightarrow> 'n meta_run" where
  "Cell_set_meta ase_io content md0 =
     (let md = md0\<lparr>number_of_molecules := 1\<rparr> in
      case ase_io of
        Some ase \<Rightarrow>
          (case ase_read ase content of
             Inl e \<Rightarrow>
               if is_ValueError e
               then \<lparr>metadata = md, errors_logged = [], meta_raised = Some unbound_e\<rparr>
               else \<lparr>metadata = md, errors_logged = [], meta_raised = Some e\<rparr>
           | Inr ase_data \<Rightarrow> enhanced_metadata ase ase_data md)
      | None \<Rightarrow> simple_metadata content md)"

section \<open>CML.merge\<close>

text \<open>
  What a call of \<^verbatim>\<open>merge\<close> leaves behind: the content of the destination file
  (\<open>None\<close> when it was never opened for writing) and the exception that left the call,
  if any. A chunk file is given by its name and its content.
\<close>

record merge_run =
  destination :: "string option"
  merge_raised :: "error option"

text \<open>
  Modelled from the spec: \<^verbatim>\<open>Text.merge\<close> of \<^verbatim>\<open>galaxy.datatypes.data\<close> is not among the
  sources. \<^verbatim>\<open>CML.merge\<close> hands it the list when it holds exactly one chunk, where, by the
  spec, "merging degenerates to a byte-preserving move/copy".
\<close>

definition Text_merge_one :: "string \<times> string \<Rightarrow> merge_run" where
  "Text_merge_one chunk = \<lparr>destination = Some (snd chunk), merge_raised = None\<rparr>"

definition xml_declaration :: string where
  "xml_declaration = ''<?xml version=\"1.0\"?>''"

definition cml_opening :: string where
  "cml_opening = ''<cml xmlns=\"http://www.xml-cml.org/schema''"

text \<open>
  The loop over \<^verbatim>\<open>handle.readlines()\<close> after the two header lines: lines that start with
  \<^verbatim>\<open></cml>\<close> are skipped, and lines are written from the first one that starts with
  \<^verbatim>\<open><molecule\<close> on, leading whitespace aside.
\<close>

fun cml_body :: "bool \<Rightarrow> string list \<Rightarrow> string" where
  "cml_body molecule_found [] = []"
| "cml_body molecule_found (line # rest) =
     (if startswith (lstrip line) ''</cml>'' then cml_body molecule_found rest
      else
        let molecule_found' = (molecule_found \<or> startswith (lstrip line) ''<molecule'')
        in (if molecule_found' then line else []) @ cml_body molecule_found' rest)"

fun cml_merge_files :: "(string \<times> string) list \<Rightarrow> string \<Rightarrow> merge_run" where
  "cml_merge_files [] out = \<lparr>destination = Some (out @ ''</cml>\<newline>''), merge_raised = None\<rparr>"
| "cml_merge_files ((filename, content) # split_files) out =
     (case readlines content of
        [] \<Rightarrow> \<lparr>destination = Some out,
                merge_raised = Some (ValueError (''CML file '' @ filename @ '' was empty''))\<rparr>
      | header # others \<Rightarrow>
          if \<not> startswith (lstrip header) xml_declaration
          then \<lparr>destination = Some (out @ header),
                merge_raised = Some (ValueError (filename @ '' is not a valid XML file!''))\<rparr>
          else
            let line = (case others of [] \<Rightarrow> [] | l # _ \<Rightarrow> l) in
            if \<not> startswith (lstrip line) cml_opening
            then \<lparr>destination = Some (out @ header @ line),
                  merge_raised = Some (ValueError (filename @ '' is not a CML file!''))\<rparr>
            else cml_merge_files split_files (out @ cml_body False (tl others)))"

definition CML_merge :: "(string \<times> string) list \<Rightarrow> string \<Rightarrow> merge_run" where
  "CML_merge split_files output_file =
     (if length split_files = 1 then Text_merge_one (hd split_files)
      else if split_files = []
      then \<lparr>destination = None,
            merge_raised = Some (ValueError
              (''Given no CML files, [], to merge into '' @ output_file))\<rparr>
      else cml_merge_files split_files [])"

text \<open>Vocabulary of the claim about malformed chunk headers.\<close>

definition first_line :: "string \<Rightarrow> string" where
  "first_line content = (case readlines content of [] \<Rightarrow> [] | l # _ \<Rightarrow> l)"

definition second_line :: "string \<Rightarrow> string" where
  "second_line content = (case readlines content of l # m # _ \<Rightarrow> m | _ \<Rightarrow> [])"

definition cml_header_ok :: "string \<Rightarrow> bool" where
  "cml_header_ok content =
     (startswith (lstrip (first_line content)) xml_declaration \<and>
      startswith (lstrip (second_line content)) cml_opening)"

definition header_read :: "string \<Rightarrow> string" where
  \<comment> \<open>the header lines of a chunk read up to the failed test\<close>
  "header_read content =
     (if startswith (lstrip (first_line content)) xml_declaration
      then first_line content @ second_line content else first_line content)"

definition molecule_lines :: "string \<Rightarrow> string" where
  \<comment> \<open>what merging writes for a chunk with a good header\<close>
  "molecule_lines content = cml_body False (drop 2 (readlines content))"

section \<open>Concrete inputs\<close>

text \<open>
  A dataset without metadata yet, and an \<^verbatim>\<open>ase\<close> whose reader rejects the file with
  \<^verbatim>\<open>ValueError\<close>, as it does on a file that is not in the CASTEP cell format.
\<close>

definition no_metadata :: "unit cell_metadata" where
  "no_metadata = \<lparr>number_of_molecules = 0, atom_data = [], number_atoms = None,
     chemical_formula = None, is_periodic = None, lattice_parameters = None\<rparr>"

definition failing_ase :: "(unit, unit) ase_io" where
  "failing_ase = \<lparr>ase_read = (\<lambda>f. Inl (ValueError ''Could not parse cell'')),
     get_chemical_symbols = (\<lambda>a. Inr []), get_positions = (\<lambda>a. Inr []),
     get_chemical_formula = (\<lambda>a. Inr []), get_pbc = (\<lambda>a. Inr (Flag False)),
     cellpar = (\<lambda>a. Inr [])\<rparr>"

text \<open>
  The line ending of two characters, and a file of three records whose lines end with it.
\<close>

definition crlf :: string where
  "crlf = [carriage_return, newline]"

definition three_records_crlf :: string where
  "three_records_crlf =
     ''m1'' @ crlf @ ''M  END'' @ crlf @ ''$$$$'' @ crlf @
     ''m2'' @ crlf @ ''M  END'' @ crlf @ ''$$$$'' @ crlf @
     ''m3'' @ crlf @ ''M  END'' @ crlf @ ''$$$$'' @ crlf"

section \<open>Arithmetic of the record counter\<close>

lemma mod_step_zero: "0 < k \<Longrightarrow> (c::int) mod k = 0 \<Longrightarrow> (c - 1) mod k = k - 1"
  by (metis diff_0 mod_diff_left_eq zmod_minus1)

lemma mod_step_nonzero:
  assumes "0 < k" "(c::int) mod k \<noteq> 0"
  shows "c mod k = (c - 1) mod k + 1"
proof -
  define r where "r = (c - 1) mod k"
  have r: "0 \<le> r" "r < k" using assms(1) by (simp_all add: r_def)
  have "c mod k = ((c - 1) + 1) mod k" by simp
  also have "\<dots> = (r + 1) mod k" unfolding r_def by (simp only: mod_add_left_eq)
  finally have c: "c mod k = (r + 1) mod k" .
  show ?thesis
  proof (cases "r + 1 < k")
    case True
    then show ?thesis using c r by (simp add: r_def)
  next
    case False
    then have "r + 1 = k" using r by simp
    then show ?thesis using c assms(2) by simp
  qed
qed

section \<open>Grouping records\<close>

lemma chunks_Nil [simp]: "chunks n [] = []"
  by (simp add: chunks.simps)

lemma chunks_short: "0 < n \<Longrightarrow> xs \<noteq> [] \<Longrightarrow> length xs \<le> n \<Longrightarrow> chunks n xs = [xs]"
  by (subst chunks.simps) simp

lemma chunks_full: "0 < n \<Longrightarrow> length xs = n \<Longrightarrow> chunks n (xs @ ys) = xs # chunks n ys"
  by (subst chunks.simps) auto

lemma concat_chunks: "0 < n \<Longrightarrow> concat (chunks n xs) = xs"
proof (induction n xs rule: chunks.induct)
  case (1 n xs)
  then show ?case by (subst chunks.simps) auto
qed

lemma ceil_div_Suc: "0 < n \<Longrightarrow> 0 < m \<Longrightarrow> (m + n - 1) div n = Suc ((m - 1) div n)"
  by (subst le_div_geq) auto

lemma length_chunks: "0 < n \<Longrightarrow> length (chunks n xs) = (length xs + n - 1) div n"
proof (induction n xs rule: chunks.induct)
  case (1 n xs)
  show ?case
  proof (cases "xs = []")
    case True
    then show ?thesis using 1(2) by simp
  next
    case False
    have ih: "length (chunks n (drop n xs)) = (length (drop n xs) + n - 1) div n"
      using 1 False by simp
    have c: "(length xs + n - 1) div n = Suc ((length xs - 1) div n)"
      using False 1(2) ceil_div_Suc [of n "length xs"] by simp
    show ?thesis
    proof (cases "length xs \<le> n")
      case True
      then show ?thesis using False 1(2) c by (simp add: chunks_short)
    next
      case b: False
      then have "length (drop n xs) + n - 1 = length xs - 1" by simp
      then show ?thesis using ih c False 1(2) by (subst chunks.simps) simp
    qed
  qed
qed

lemma last_chunks:
  "0 < n \<Longrightarrow> xs \<noteq> [] \<Longrightarrow>
   length (last (chunks n xs)) = (if length xs mod n = 0 then n else length xs mod n)"
proof (induction n xs rule: chunks.induct)
  case (1 n xs)
  show ?case
  proof (cases "length xs \<le> n")
    case True
    then show ?thesis using 1(2,3) by (cases "length xs = n") (simp_all add: chunks_short)
  next
    case False
    then have d: "drop n xs \<noteq> []" by simp
    then have c: "chunks n (drop n xs) \<noteq> []" using 1(2) by (subst chunks.simps) simp
    have "length (last (chunks n (drop n xs))) =
          (if length (drop n xs) mod n = 0 then n else length (drop n xs) mod n)"
      using 1 d by simp
    moreover have "length (drop n xs) mod n = length xs mod n"
      using False by (simp add: le_mod_geq)
    moreover have "last (chunks n xs) = last (chunks n (drop n xs))"
      using c 1(2,3) by (subst chunks.simps) simp
    ultimately show ?thesis by simp
  qed
qed

section \<open>The split loop writes the groups\<close>

lemma split_loop_chunks:
  assumes "0 < k" "\<forall>r \<in> set (pend @ rs). r \<noteq> []"
      and "int (length pend) = (c - 1) mod k"
  shows "split_loop k c rs (concat pend) written =
           (written @ map (\<lambda>g. writelines (concat g)) (chunks (nat k) (pend @ rs)), None)"
  using assms(2,3)
proof (induction rs arbitrary: c pend written)
  case Nil
  have lt: "length pend < nat k" using Nil(2) assms(1)
    by (metis nat_int pos_mod_bound zless_nat_conj)
  show ?case
  proof (cases "pend = []")
    case True
    then show ?thesis by simp
  next
    case False
    then have "concat pend \<noteq> []" using Nil(1) by (cases pend) auto
    then show ?thesis using False lt assms(1) by (simp add: chunks_short)
  qed
next
  case (Cons r rs)
  have k0: "k \<noteq> 0" using assms(1) by simp
  show ?case
  proof (cases "c mod k = 0")
    case True
    then have "int (length pend) = k - 1" using Cons(3) assms(1) by (simp add: mod_step_zero)
    then have len: "length (pend @ [r]) = nat k" using assms(1) by simp
    have "split_loop k (c + 1) rs (concat []) (written @ [writelines (concat (pend @ [r]))]) =
            ((written @ [writelines (concat (pend @ [r]))]) @
              map (\<lambda>g. writelines (concat g)) (chunks (nat k) ([] @ rs)), None)"
      using Cons(2) True by (intro Cons.IH) auto
    moreover have "chunks (nat k) (pend @ r # rs) = (pend @ [r]) # chunks (nat k) rs"
      using chunks_full [OF _ len, of rs] assms(1) by simp
    ultimately show ?thesis using True k0 by simp
  next
    case False
    then have "int (length (pend @ [r])) = (c + 1 - 1) mod k"
      using Cons(3) assms(1) mod_step_nonzero [of k c] by simp
    then have "split_loop k (c + 1) rs (concat (pend @ [r])) written =
            (written @ map (\<lambda>g. writelines (concat g)) (chunks (nat k) ((pend @ [r]) @ rs)), None)"
      using Cons(2) by (intro Cons.IH) auto
    then show ?thesis using False k0 by simp
  qed
qed

section \<open>The record reader\<close>

lemma read_sdf_records_nonempty: "r \<in> set (read_sdf_records acc ls) \<Longrightarrow> r \<noteq> []"
  by (induction ls arbitrary: acc) (auto split: if_splits)

lemma length_read_sdf_records:
  "length (read_sdf_records acc ls) = length (filter (\<lambda>l. startswith l ''$$$$'') ls)"
  by (induction ls arbitrary: acc) auto

lemma upto_last_sentinel_Nil_iff:
  "upto_last_sentinel ls = [] \<longleftrightarrow> (\<forall>l \<in> set ls. \<not> startswith l ''$$$$'')"
  by (auto simp: upto_last_sentinel_def dropWhile_eq_Nil_conv)

lemma upto_last_sentinel_Cons:
  "upto_last_sentinel (l # ls) =
     (if \<forall>x \<in> set ls. \<not> startswith x ''$$$$''
      then (if startswith l ''$$$$'' then [l] else [])
      else l # upto_last_sentinel ls)"
  by (auto simp: upto_last_sentinel_def dropWhile_append)

lemma concat_read_sdf_records:
  "concat (read_sdf_records acc ls) =
     (if \<forall>l \<in> set ls. \<not> startswith l ''$$$$'' then [] else acc @ upto_last_sentinel ls)"
proof (induction ls arbitrary: acc)
  case Nil
  then show ?case by simp
next
  case (Cons l ls)
  show ?case
    by (simp add: Cons.IH upto_last_sentinel_Cons)
qed

section \<open>Lines of a file\<close>

lemma concat_lines_from: "concat (lines_from cur s) = cur @ s"
  by (induction s arbitrary: cur) auto

lemma wf_lines_from: "newline \<notin> set cur \<Longrightarrow> wf_lines (lines_from cur s)"
proof (induction s arbitrary: cur)
  case Nil
  then show ?case by (simp add: tail_line_def)
next
  case (Cons c s)
  show ?case
  proof (cases "c = newline")
    case True
    have "wf_lines (lines_from [] s)" by (rule Cons.IH) simp
    moreover have "proper_line (cur @ [c])" using True Cons.prems by (simp add: proper_line_def)
    ultimately show ?thesis using True by simp
  next
    case False
    then show ?thesis using Cons by simp
  qed
qed

lemma wf_readlines: "wf_lines (readlines content)"
  by (simp add: readlines_def wf_lines_from)

lemma lines_from_tail: "newline \<notin> set l \<Longrightarrow> cur @ l \<noteq> [] \<Longrightarrow> lines_from cur l = [cur @ l]"
  by (induction l arbitrary: cur) auto

lemma lines_from_body:
  "newline \<notin> set b \<Longrightarrow> lines_from cur (b @ newline # rest) = (cur @ b @ [newline]) # lines_from [] rest"
  by (induction b arbitrary: cur) auto

lemma lines_from_proper:
  assumes "proper_line l"
  shows "lines_from [] (l @ rest) = l # lines_from [] rest"
proof -
  have l: "l = butlast l @ [newline]" using assms
    by (metis append_butlast_last_id proper_line_def)
  have "lines_from [] (butlast l @ newline # rest) = ([] @ butlast l @ [newline]) # lines_from [] rest"
    using assms by (intro lines_from_body) (simp add: proper_line_def)
  then show ?thesis using l by (metis append.assoc append_Cons append_Nil)
qed

lemma readlines_concat: "wf_lines ls \<Longrightarrow> readlines (concat ls) = ls"
proof (induction ls)
  case Nil
  then show ?case by (simp add: readlines_def)
next
  case (Cons l ls)
  show ?case
  proof (cases "proper_line l")
    case True
    have "wf_lines ls" using Cons.prems by (cases ls) (auto split: if_splits)
    then show ?thesis using Cons.IH True by (simp add: readlines_def lines_from_proper)
  next
    case False
    then have "ls = []" "tail_line l" using Cons.prems by (auto split: if_splits)
    then show ?thesis using lines_from_tail [of l "[]"] by (simp add: readlines_def tail_line_def)
  qed
qed

lemma wf_lines_append: "wf_lines (xs @ ys) \<Longrightarrow> wf_lines xs \<and> wf_lines ys"
proof (induction xs)
  case Nil
  then show ?case by simp
next
  case (Cons x xs)
  show ?case
  proof (cases "xs @ ys = []")
    case True
    then show ?thesis using Cons.prems by simp
  next
    case False
    then have "proper_line x" "wf_lines (xs @ ys)" using Cons.prems by auto
    then show ?thesis using Cons.IH by auto
  qed
qed

lemma wf_lines_concat: "wf_lines (concat xss) \<Longrightarrow> xs \<in> set xss \<Longrightarrow> wf_lines xs"
proof (induction xss)
  case Nil
  then show ?case by simp
next
  case (Cons a xss)
  then show ?case using wf_lines_append [of a "concat xss"] by auto
qed

section \<open>SDF.split with a to_size plan\<close>

lemma SDF_split_to_size:
  assumes "0 < k"
  shows "SDF_split [content] (to_size k) =
           \<lparr>parts = map (\<lambda>g. writelines (concat g))
                      (chunks (nat k) (read_sdf_records [] (readlines content))),
            logged = [], raised = None\<rparr>"
proof -
  have "split_loop k 1 (read_sdf_records [] (readlines content)) (concat []) [] =
          ([] @ map (\<lambda>g. writelines (concat g))
                 (chunks (nat k) ([] @ read_sdf_records [] (readlines content))), None)"
    using assms by (intro split_loop_chunks) (auto dest: read_sdf_records_nonempty)
  then show ?thesis
    by (simp add: SDF_split_def to_size_def split_try_def)
qed

lemma split_at_last_sentinel: "upto_last_sentinel ls @ after_last_sentinel ls = ls"
proof -
  have "rev (upto_last_sentinel ls @ after_last_sentinel ls) = rev ls"
    by (simp add: upto_last_sentinel_def after_last_sentinel_def)
  then show ?thesis by (simp only: rev_is_rev_conv)
qed

lemma after_last_sentinel_plain:
  "l \<in> set (after_last_sentinel ls) \<Longrightarrow> \<not> startswith l ''$$$$''"
  by (auto simp: after_last_sentinel_def dest: set_takeWhileD)

lemma concat_records: "concat (read_sdf_records [] ls) = upto_last_sentinel ls"
  by (simp add: concat_read_sdf_records upto_last_sentinel_Nil_iff [symmetric])

lemma concat_map_concat: "concat (map concat xss) = concat (concat xss)"
  by (induction xss) auto

lemma concat_record_groups:
  "0 < n \<Longrightarrow> concat (map concat (chunks n (read_sdf_records [] ls))) = upto_last_sentinel ls"
  by (simp add: concat_map_concat concat_chunks concat_records)

lemma wf_upto_last_sentinel: "wf_lines (upto_last_sentinel (readlines content))"
  using wf_readlines [of content] split_at_last_sentinel [of "readlines content"]
    wf_lines_append [of "upto_last_sentinel (readlines content)" "after_last_sentinel (readlines content)"]
  by simp

lemma wf_group:
  assumes "0 < n" "g \<in> set (chunks n (read_sdf_records [] (readlines content)))"
  shows "wf_lines (concat g)"
proof -
  have "wf_lines (concat (map concat (chunks n (read_sdf_records [] (readlines content)))))"
    using assms(1) by (simp only: concat_record_groups wf_upto_last_sentinel)
  moreover have "concat g \<in> set (map concat (chunks n (read_sdf_records [] (readlines content))))"
    using assms(2) by simp
  ultimately show ?thesis by (rule wf_lines_concat)
qed

lemma readlines_group:
  assumes "0 < n" "g \<in> set (chunks n (read_sdf_records [] (readlines content)))"
  shows "readlines (writelines (concat g)) = concat g"
  using wf_group [OF assms] by (simp add: writelines_def readlines_concat)

lemma sum_length_filter_concat:
  "sum_list (map (\<lambda>xs. length (filter P xs)) xss) = length (filter P (concat xss))"
  by (induction xss) auto

lemma matches_sdf_end_startswith: "matches_sdf_end l \<Longrightarrow> startswith l ''$$$$''"
  by (auto simp: matches_sdf_end_def startswith_def)

lemma filter_upto_last_sentinel:
  "filter matches_sdf_end (upto_last_sentinel ls) = filter matches_sdf_end ls"
proof -
  have "filter matches_sdf_end (after_last_sentinel ls) = []"
    by (auto simp: filter_empty_conv dest: after_last_sentinel_plain matches_sdf_end_startswith)
  then have "filter matches_sdf_end (upto_last_sentinel ls @ after_last_sentinel ls) =
             filter matches_sdf_end (upto_last_sentinel ls)"
    by simp
  then show ?thesis by (simp only: split_at_last_sentinel)
qed

section \<open>Records in the chunks\<close>

lemma read_sdf_records_ok:
  "\<forall>l \<in> set acc. \<not> startswith l ''$$$$'' \<Longrightarrow> r \<in> set (read_sdf_records acc ls) \<Longrightarrow> record_ok r"
proof (induction ls arbitrary: acc)
  case Nil
  then show ?case by simp
next
  case (Cons l ls)
  show ?case
  proof (cases "startswith l ''$$$$''")
    case True
    then have "r = acc @ [l] \<or> r \<in> set (read_sdf_records [] ls)" using Cons.prems(2) by simp
    then show ?thesis
    proof
      assume "r = acc @ [l]"
      then show ?thesis using True Cons.prems(1) by (simp add: record_ok_def)
    next
      assume "r \<in> set (read_sdf_records [] ls)"
      then show ?thesis using Cons.IH [of "[]"] by simp
    qed
  next
    case False
    then have "r \<in> set (read_sdf_records (acc @ [l]) ls)" using Cons.prems(2) by simp
    moreover have "\<forall>x \<in> set (acc @ [l]). \<not> startswith x ''$$$$''" using False Cons.prems(1) by simp
    ultimately show ?thesis using Cons.IH by blast
  qed
qed

lemma read_sdf_records_plain:
  "\<forall>l \<in> set b. \<not> startswith l ''$$$$'' \<Longrightarrow> startswith s ''$$$$'' \<Longrightarrow>
   read_sdf_records acc (b @ s # rest) = (acc @ b @ [s]) # read_sdf_records [] rest"
  by (induction b arbitrary: acc) auto

lemma read_sdf_records_record:
  assumes "record_ok r"
  shows "read_sdf_records [] (r @ rest) = r # read_sdf_records [] rest"
proof -
  have r: "r = butlast r @ [last r]" using assms by (simp add: record_ok_def)
  have "read_sdf_records [] (butlast r @ last r # rest) =
          ([] @ butlast r @ [last r]) # read_sdf_records [] rest"
    using assms by (intro read_sdf_records_plain) (simp_all add: record_ok_def)
  then show ?thesis using r by (metis append.assoc append_Cons append_Nil)
qed

lemma read_sdf_records_concat:
  "\<forall>r \<in> set rs. record_ok r \<Longrightarrow> read_sdf_records [] (concat rs) = rs"
  by (induction rs) (simp_all add: read_sdf_records_record)

lemma set_chunks: "0 < n \<Longrightarrow> g \<in> set (chunks n xs) \<Longrightarrow> set g \<subseteq> set xs"
  using concat_chunks [of n xs] by (metis Sup_upper image_eqI set_concat)

lemma chunks_nonempty: "0 < n \<Longrightarrow> xs \<noteq> [] \<Longrightarrow> chunks n xs \<noteq> []"
  by (subst chunks.simps) simp

lemma records_of_group:
  assumes "0 < n" "g \<in> set (chunks n (read_sdf_records [] (readlines content)))"
  shows "read_sdf_records [] (readlines (writelines (concat g))) = g"
proof -
  have "\<forall>r \<in> set g. record_ok r"
    using set_chunks [OF assms] read_sdf_records_ok [of "[]" _ "readlines content"] by auto
  then show ?thesis using readlines_group [OF assms] by (simp add: read_sdf_records_concat)
qed

lemma wf_lines_proper: "\<forall>l \<in> set ls. proper_line l \<Longrightarrow> wf_lines ls"
  by (induction ls) auto

lemma record_ok_sdf_record:
  "\<forall>l \<in> set (body @ data). \<not> startswith l ''$$$$'' \<Longrightarrow> record_ok (sdf_record body data)"
  by (auto simp: record_ok_def sdf_record_def startswith_def butlast_append)

lemma proper_sdf_record:
  "\<forall>l \<in> set (body @ data). proper_line l \<Longrightarrow> \<forall>l \<in> set (sdf_record body data). proper_line l"
  by (auto simp: sdf_record_def proper_line_def newline_def)

section \<open>CML.merge over chunks with good and bad headers\<close>

lemma cml_header_ok_lines:
  assumes "cml_header_ok content"
  obtains h1 h2 others where "readlines content = h1 # h2 # others"
    and "startswith (lstrip h1) xml_declaration" and "startswith (lstrip h2) cml_opening"
proof (cases "readlines content")
  case Nil
  then show ?thesis using assms
    by (simp add: cml_header_ok_def first_line_def startswith_def lstrip_def xml_declaration_def)
next
  case (Cons h1 rest)
  show ?thesis
  proof (cases rest)
    case Nil
    then show ?thesis using assms Cons
      by (simp add: cml_header_ok_def second_line_def startswith_def lstrip_def cml_opening_def)
  next
    case c2: (Cons h2 others)
    then show ?thesis using assms Cons that
      by (simp add: cml_header_ok_def first_line_def second_line_def)
  qed
qed

lemma cml_merge_files_good:
  assumes "cml_header_ok content"
  shows "cml_merge_files ((filename, content) # split_files) out =
         cml_merge_files split_files (out @ molecule_lines content)"
proof -
  obtain h1 h2 others where "readlines content = h1 # h2 # others"
    and "startswith (lstrip h1) xml_declaration" and "startswith (lstrip h2) cml_opening"
    using assms by (rule cml_header_ok_lines)
  then show ?thesis by (simp add: molecule_lines_def)
qed

lemma cml_merge_files_goods:
  "\<forall>chunk \<in> set good. cml_header_ok (snd chunk) \<Longrightarrow>
   cml_merge_files (good @ split_files) out =
   cml_merge_files split_files (out @ concat (map (\<lambda>chunk. molecule_lines (snd chunk)) good))"
proof (induction good arbitrary: out)
  case Nil
  then show ?case by simp
next
  case (Cons chunk good)
  obtain filename content where chunk: "chunk = (filename, content)" by (cases chunk)
  have "cml_header_ok content" using Cons.prems chunk by simp
  then have "cml_merge_files ((filename, content) # good @ split_files) out =
             cml_merge_files (good @ split_files) (out @ molecule_lines content)"
    by (rule cml_merge_files_good)
  also have "\<dots> = cml_merge_files split_files
      ((out @ molecule_lines content) @ concat (map (\<lambda>chunk. molecule_lines (snd chunk)) good))"
    using Cons.prems by (intro Cons.IH) simp
  finally show ?case by (simp add: chunk)
qed

lemma cml_merge_files_bad:
  assumes "\<not> cml_header_ok content"
  shows "\<exists>msg. cml_merge_files ((filename, content) # split_files) out =
           \<lparr>destination = Some (out @ header_read content), merge_raised = Some (ValueError msg)\<rparr>"
proof (cases "readlines content")
  case Nil
  then show ?thesis
    by (simp add: header_read_def first_line_def startswith_def lstrip_def xml_declaration_def)
next
  case (Cons h1 rest)
  show ?thesis
  proof (cases "startswith (lstrip h1) xml_declaration")
    case False
    then show ?thesis using Cons by (simp add: header_read_def first_line_def)
  next
    case True
    then have "\<not> startswith (lstrip (second_line content)) cml_opening"
      using assms Cons by (simp add: cml_header_ok_def first_line_def)
    then show ?thesis using Cons True
      by (cases rest) (simp_all add: header_read_def first_line_def second_line_def)
  qed
qed

section \<open>Splitting a text\<close>

text \<open>
  The two facts below are about the text that \<^verbatim>\<open>SDF.split\<close> reads and the parts it writes.
\<close>

lemma record_count_conserved_text:
  assumes "1 \<le> k"
  shows "raised (SDF_split [content] (to_size k)) = None \<and>
         sum_list (map SDF_set_meta (parts (SDF_split [content] (to_size k)))) = SDF_set_meta content"
proof -
  define G where "G = chunks (nat k) (read_sdf_records [] (readlines content))"
  have k: "0 < k" "0 < nat k" using assms by simp_all
  have run: "SDF_split [content] (to_size k) =
      \<lparr>parts = map (\<lambda>g. writelines (concat g)) G, logged = [], raised = None\<rparr>"
    unfolding G_def by (rule SDF_split_to_size [OF k(1)])
  have "map SDF_set_meta (map (\<lambda>g. writelines (concat g)) G) =
        map (\<lambda>xs. length (filter matches_sdf_end xs)) (map concat G)"
    using readlines_group [OF k(2), of _ content]
    by (simp add: SDF_set_meta_def count_special_lines_def G_def)
  then have "sum_list (map SDF_set_meta (map (\<lambda>g. writelines (concat g)) G)) =
        length (filter matches_sdf_end (concat (map concat G)))"
    by (simp only: sum_length_filter_concat)
  also have "\<dots> = length (filter matches_sdf_end (readlines content))"
    unfolding G_def using k(2) by (simp only: concat_record_groups filter_upto_last_sentinel)
  finally show ?thesis
    by (simp add: run SDF_set_meta_def count_special_lines_def)
qed

lemma three_records_text:
  assumes "\<forall>l \<in> set (b1 @ d1 @ b2 @ d2 @ b3 @ d3). proper_line l \<and> \<not> startswith l ''$$$$''"
      and "r1 = sdf_record b1 d1" and "r2 = sdf_record b2 d2" and "r3 = sdf_record b3 d3"
      and "content = writelines (r1 @ r2 @ r3)"
  shows "SDF_split [content] (to_size 2) =
           \<lparr>parts = [writelines (r1 @ r2), writelines r3], logged = [], raised = None\<rparr> \<and>
         read_sdf_records [] (readlines (writelines (r1 @ r2))) = [r1, r2] \<and>
         read_sdf_records [] (readlines (writelines r3)) = [r3] \<and>
         writelines (r1 @ r2) @ writelines r3 = content"
proof -
  have plain: "\<forall>l \<in> set (b1 @ d1). \<not> startswith l ''$$$$''"
      "\<forall>l \<in> set (b2 @ d2). \<not> startswith l ''$$$$''"
      "\<forall>l \<in> set (b3 @ d3). \<not> startswith l ''$$$$''"
    using assms(1) by auto
  have pl: "\<forall>l \<in> set (b1 @ d1). proper_line l" "\<forall>l \<in> set (b2 @ d2). proper_line l"
      "\<forall>l \<in> set (b3 @ d3). proper_line l"
    using assms(1) by auto
  have ok1: "record_ok r1" unfolding assms(2) using plain(1) by (rule record_ok_sdf_record)
  have ok2: "record_ok r2" unfolding assms(3) using plain(2) by (rule record_ok_sdf_record)
  have ok3: "record_ok r3" unfolding assms(4) using plain(3) by (rule record_ok_sdf_record)
  have p1: "\<forall>l \<in> set r1. proper_line l" unfolding assms(2) using pl(1) by (rule proper_sdf_record)
  have p2: "\<forall>l \<in> set r2. proper_line l" unfolding assms(3) using pl(2) by (rule proper_sdf_record)
  have p3: "\<forall>l \<in> set r3. proper_line l" unfolding assms(4) using pl(3) by (rule proper_sdf_record)
  have wf123: "wf_lines (r1 @ r2 @ r3)" using p1 p2 p3 by (intro wf_lines_proper) auto
  have wf12: "wf_lines (r1 @ r2)" using p1 p2 by (intro wf_lines_proper) auto
  have wf3: "wf_lines r3" using p3 by (rule wf_lines_proper)
  have rec123: "read_sdf_records [] (r1 @ r2 @ r3) = [r1, r2, r3]"
    using read_sdf_records_concat [of "[r1, r2, r3]"] ok1 ok2 ok3 by simp
  have rec12: "read_sdf_records [] (r1 @ r2) = [r1, r2]"
    using read_sdf_records_concat [of "[r1, r2]"] ok1 ok2 by simp
  have rec3: "read_sdf_records [] r3 = [r3]"
    using read_sdf_records_concat [of "[r3]"] ok3 by simp
  have ne: "r3 \<noteq> []" using ok3 by (simp add: record_ok_def)
  have rl123: "readlines content = r1 @ r2 @ r3"
    unfolding assms(5) writelines_def by (rule readlines_concat [OF wf123])
  have rl12: "readlines (writelines (r1 @ r2)) = r1 @ r2"
    unfolding writelines_def by (rule readlines_concat [OF wf12])
  have rl3: "readlines (writelines r3) = r3"
    unfolding writelines_def by (rule readlines_concat [OF wf3])
  have run: "SDF_split [content] (to_size 2) =
           \<lparr>parts = [writelines (r1 @ r2), writelines r3], logged = [], raised = None\<rparr>"
    using ne by (simp add: SDF_split_def to_size_def split_try_def rl123 rec123 Let_def)
  have cat: "writelines (r1 @ r2) @ writelines r3 = content"
    by (simp add: assms(5) writelines_def)
  show ?thesis using run cat by (simp only: rl12 rl3 rec12 rec3 simp_thms)
qed

section \<open>Raw files without carriage returns\<close>

lemma open_text_without_carriage_return:
  "carriage_return \<notin> set raw \<Longrightarrow> open_text raw = raw"
  by (induction raw rule: open_text.induct) auto

section \<open>Claims\<close>

text \<open>
  C1, as amended. For every raw SDF file without a carriage return (its lines end with a line
  feed) and every \<^verbatim>\<open>to_size\<close> plan with chunk size \<open>k \<ge> 1\<close>, the numbers of lines matching
  \<^verbatim>\<open>^\$\$\$\$$\<close> in the chunks written by \<^verbatim>\<open>SDF.split\<close> add up to the number of such lines
  in the input: splitting conserves the record count that \<^verbatim>\<open>SDF.set_meta\<close> computes.
\<close>

theorem sdf_split_conserves_record_count_lf:
  assumes "1 \<le> k" and "carriage_return \<notin> set raw"
  shows "raised (SDF_split [open_text raw] (to_size k)) = None \<and>
         sum_list (map SDF_set_meta (parts (SDF_split [open_text raw] (to_size k)))) =
           SDF_set_meta raw"
proof -
  have "open_text raw = raw" using assms(2) by (rule open_text_without_carriage_return)
  then show ?thesis using record_count_conserved_text [OF assms(1), of raw] by simp
qed

theorem sdf_split_conserves_record_count_lf_witness:
  "(1::int) \<le> 2 \<and>
   carriage_return \<notin> set ''a\<newline>$$$$\<newline>b\<newline>$$$$\<newline>c\<newline>$$$$\<newline>d\<newline>'' \<and>
   raised (SDF_split [open_text ''a\<newline>$$$$\<newline>b\<newline>$$$$\<newline>c\<newline>$$$$\<newline>d\<newline>''] (to_size 2)) = None \<and>
   sum_list (map SDF_set_meta
     (parts (SDF_split [open_text ''a\<newline>$$$$\<newline>b\<newline>$$$$\<newline>c\<newline>$$$$\<newline>d\<newline>''] (to_size 2)))) =
   SDF_set_meta ''a\<newline>$$$$\<newline>b\<newline>$$$$\<newline>c\<newline>$$$$\<newline>d\<newline>''"
proof -
  have cr: "carriage_return \<notin> set ''a\<newline>$$$$\<newline>b\<newline>$$$$\<newline>c\<newline>$$$$\<newline>d\<newline>''"
    by (simp add: carriage_return_def)
  show ?thesis
    using sdf_split_conserves_record_count_lf
            [of 2 "''a\<newline>$$$$\<newline>b\<newline>$$$$\<newline>c\<newline>$$$$\<newline>d\<newline>''", OF _ cr] cr
    by simp
qed

text \<open>
  C1 as stated fails on a file whose lines end with a carriage return and a line feed: the
  count on the raw input sees no line that is exactly \<^verbatim>\<open>$$$$\<close>, while the part, written
  with line feeds, holds one.
\<close>

theorem sdf_split_crlf_changes_record_count:
  "(1::int) \<le> 1 \<and>
   SDF_set_meta (''mol'' @ crlf @ ''$$$$'' @ crlf) = 0 \<and>
   parts (SDF_split [open_text (''mol'' @ crlf @ ''$$$$'' @ crlf)] (to_size 1)) = [''mol\<newline>$$$$\<newline>''] \<and>
   sum_list (map SDF_set_meta
     (parts (SDF_split [open_text (''mol'' @ crlf @ ''$$$$'' @ crlf)] (to_size 1)))) = 1"
  by code_simp

text \<open>
  C2, as amended. A raw SDF file without a carriage return that consists of three records,
  each a block ending with the line \<^verbatim>\<open>M  END\<close> followed by a data block ending with the
  line \<^verbatim>\<open>$$$$\<close>, where no other line starts with \<^verbatim>\<open>$$$$\<close>, split with a \<^verbatim>\<open>to_size\<close> plan
  of size 2, gives exactly two chunks: the first holds records 1 and 2, the second holds
  record 3, and chunk 1 followed by chunk 2 is the original file, byte for byte.
\<close>

theorem sdf_three_records_split_two_lf:
  assumes "\<forall>l \<in> set (b1 @ d1 @ b2 @ d2 @ b3 @ d3). proper_line l \<and> \<not> startswith l ''$$$$''"
      and "r1 = sdf_record b1 d1" and "r2 = sdf_record b2 d2" and "r3 = sdf_record b3 d3"
      and "raw = writelines (r1 @ r2 @ r3)"
      and "carriage_return \<notin> set raw"
  shows "SDF_split [open_text raw] (to_size 2) =
           \<lparr>parts = [writelines (r1 @ r2), writelines r3], logged = [], raised = None\<rparr> \<and>
         read_sdf_records [] (readlines (open_text (writelines (r1 @ r2)))) = [r1, r2] \<and>
         read_sdf_records [] (readlines (open_text (writelines r3))) = [r3] \<and>
         writelines (r1 @ r2) @ writelines r3 = raw"
proof -
  have whole: "open_text raw = raw" using assms(6) by (rule open_text_without_carriage_return)
  have "carriage_return \<notin> set (writelines (r1 @ r2))" "carriage_return \<notin> set (writelines r3)"
    using assms(6) by (auto simp: assms(5) writelines_def)
  then have chunks: "open_text (writelines (r1 @ r2)) = writelines (r1 @ r2)"
      "open_text (writelines r3) = writelines r3"
    by (simp_all add: open_text_without_carriage_return)
  show ?thesis
    using three_records_text [OF assms(1-5)] by (simp only: whole chunks simp_thms)
qed

theorem sdf_three_records_split_two_lf_witness:
  "SDF_split [open_text ''mol1\<newline>M  END\<newline>> <id>\<newline>1\<newline>$$$$\<newline>mol2\<newline>M  END\<newline>$$$$\<newline>mol3\<newline>M  END\<newline>> <id>\<newline>3\<newline>$$$$\<newline>''] (to_size 2) =
     \<lparr>parts = [''mol1\<newline>M  END\<newline>> <id>\<newline>1\<newline>$$$$\<newline>mol2\<newline>M  END\<newline>$$$$\<newline>'',
               ''mol3\<newline>M  END\<newline>> <id>\<newline>3\<newline>$$$$\<newline>''],
      logged = [], raised = None\<rparr>"
  using sdf_three_records_split_two_lf
    [of "[''mol1\<newline>'']" "[''> <id>\<newline>'', ''1\<newline>'']" "[''mol2\<newline>'']" "[]" "[''mol3\<newline>'']" "[''> <id>\<newline>'', ''3\<newline>'']",
     OF _ refl refl refl refl]
  by (simp add: sdf_record_def writelines_def proper_line_def startswith_def newline_def
        carriage_return_def)

text \<open>
  C2 as stated fails in two ways. On a file of three such records whose lines end with a
  carriage return and a line feed, the chunks are written with line feeds, and chunk 1
  followed by chunk 2 is not the file. On a file of three such records where a line of the
  first data block starts with \<^verbatim>\<open>$$$$\<close>, the first chunk ends with record 1 and the second
  holds records 2 and 3.
\<close>

theorem sdf_three_records_split_two_fails:
  "length (read_sdf_records [] (readlines (open_text three_records_crlf))) = 3 \<and>
   concat (parts (SDF_split [open_text three_records_crlf] (to_size 2))) \<noteq> three_records_crlf \<and>
   parts (SDF_split
     [open_text ''m1\<newline>M  END\<newline>$$$$ is no end\<newline>$$$$\<newline>m2\<newline>M  END\<newline>$$$$\<newline>m3\<newline>M  END\<newline>$$$$\<newline>'']
     (to_size 2)) =
     [''m1\<newline>M  END\<newline>$$$$ is no end\<newline>$$$$\<newline>'', ''m2\<newline>M  END\<newline>$$$$\<newline>m3\<newline>M  END\<newline>$$$$\<newline>'']"
  by code_simp

text \<open>
  C5. For an SDF file from which the reader yields \<open>N \<ge> 1\<close> records and a chunk size
  \<open>k \<ge> 1\<close>, \<^verbatim>\<open>SDF.split\<close> writes \<open>\<lceil>N / k\<rceil> = (N + k - 1) div k\<close> chunks; the last
  chunk holds \<open>N mod k\<close> records when \<open>k\<close> does not divide \<open>N\<close>, and \<open>k\<close> records when
  it does.
\<close>

theorem sdf_split_chunk_count:
  assumes "1 \<le> k" and "N = length (read_sdf_records [] (readlines content))" and "1 \<le> N"
  shows "length (parts (SDF_split [content] (to_size k))) = (N + nat k - 1) div nat k \<and>
         length (read_sdf_records [] (readlines (last (parts (SDF_split [content] (to_size k)))))) =
           (if N mod nat k = 0 then nat k else N mod nat k)"
proof -
  define R where "R = read_sdf_records [] (readlines content)"
  have k: "0 < k" "0 < nat k" using assms(1) by simp_all
  have R: "R \<noteq> []" "length R = N" using assms(2,3) by (auto simp: R_def)
  have run: "parts (SDF_split [content] (to_size k)) = map (\<lambda>g. writelines (concat g)) (chunks (nat k) R)"
    by (simp add: SDF_split_to_size [OF k(1)] R_def)
  have ne: "chunks (nat k) R \<noteq> []" using k(2) R(1) by (rule chunks_nonempty)
  then have "last (chunks (nat k) R) \<in> set (chunks (nat k) R)" by simp
  then have "read_sdf_records [] (readlines (writelines (concat (last (chunks (nat k) R))))) =
             last (chunks (nat k) R)"
    unfolding R_def by (rule records_of_group [OF k(2)])
  then have "length (read_sdf_records [] (readlines (last (parts (SDF_split [content] (to_size k)))))) =
             length (last (chunks (nat k) R))"
    using ne by (simp add: run last_map)
  moreover have "length (parts (SDF_split [content] (to_size k))) = (N + nat k - 1) div nat k"
    using length_chunks [OF k(2), of R] R(2) by (simp add: run)
  ultimately show ?thesis using last_chunks [OF k(2) R(1)] R(2) by simp
qed

theorem sdf_split_chunk_count_witness:
  "(1::int) \<le> 2 \<and> (3::nat) = length (read_sdf_records [] (readlines ''a\<newline>$$$$\<newline>b\<newline>$$$$\<newline>c\<newline>$$$$\<newline>'')) \<and> (1::nat) \<le> 3 \<and>
   length (parts (SDF_split [''a\<newline>$$$$\<newline>b\<newline>$$$$\<newline>c\<newline>$$$$\<newline>''] (to_size 2))) = 2 \<and>
   length (read_sdf_records [] (readlines (last (parts (SDF_split [''a\<newline>$$$$\<newline>b\<newline>$$$$\<newline>c\<newline>$$$$\<newline>''] (to_size 2)))))) = 1"
proof -
  have n: "(3::nat) = length (read_sdf_records [] (readlines ''a\<newline>$$$$\<newline>b\<newline>$$$$\<newline>c\<newline>$$$$\<newline>''))"
    by (simp add: readlines_def newline_def startswith_def)
  show ?thesis
    using sdf_split_chunk_count [of 2 3 "''a\<newline>$$$$\<newline>b\<newline>$$$$\<newline>c\<newline>$$$$\<newline>''", OF _ n] n
    by simp
qed

text \<open>
  C10. When lines follow the last line of an SDF file that starts with \<^verbatim>\<open>$$$$\<close>,
  \<^verbatim>\<open>SDF.split\<close> with a \<^verbatim>\<open>to_size\<close> plan of size \<open>k \<ge> 1\<close> drops them without an error
  or a log message: the chunks, concatenated, are the input cut just after that line. The
  boundary is the prefix test \<^verbatim>\<open>startswith('$$$$')\<close>, not equality with the line.
\<close>

theorem sdf_split_drops_trailing:
  assumes "1 \<le> k" and "after_last_sentinel (readlines content) \<noteq> []"
  shows "raised (SDF_split [content] (to_size k)) = None \<and>
         logged (SDF_split [content] (to_size k)) = [] \<and>
         concat (parts (SDF_split [content] (to_size k))) =
           writelines (upto_last_sentinel (readlines content)) \<and>
         concat (parts (SDF_split [content] (to_size k))) @
           writelines (after_last_sentinel (readlines content)) = content \<and>
         concat (parts (SDF_split [content] (to_size k))) \<noteq> content"
proof -
  define L where "L = readlines content"
  have k: "0 < k" "0 < nat k" using assms(1) by simp_all
  have run: "SDF_split [content] (to_size k) =
      \<lparr>parts = map (\<lambda>g. writelines (concat g)) (chunks (nat k) (read_sdf_records [] L)),
       logged = [], raised = None\<rparr>"
    unfolding L_def by (rule SDF_split_to_size [OF k(1)])
  have "concat (map (\<lambda>g. writelines (concat g)) (chunks (nat k) (read_sdf_records [] L))) =
        concat (map concat (map concat (chunks (nat k) (read_sdf_records [] L))))"
    by (simp add: writelines_def comp_def)
  also have "\<dots> = concat (concat (map concat (chunks (nat k) (read_sdf_records [] L))))"
    by (simp only: concat_map_concat)
  also have "\<dots> = writelines (upto_last_sentinel L)"
    using k(2) by (simp only: concat_record_groups writelines_def)
  finally have c: "concat (parts (SDF_split [content] (to_size k))) = writelines (upto_last_sentinel L)"
    by (simp add: run)
  have "writelines (upto_last_sentinel L) @ writelines (after_last_sentinel L) = concat L"
    unfolding writelines_def by (simp only: concat_append [symmetric] split_at_last_sentinel)
  also have "\<dots> = content" by (simp add: L_def readlines_def concat_lines_from)
  finally have whole: "writelines (upto_last_sentinel L) @ writelines (after_last_sentinel L) = content" .
  have "wf_lines (after_last_sentinel L)"
    using wf_readlines [of content] split_at_last_sentinel [of L]
      wf_lines_append [of "upto_last_sentinel L" "after_last_sentinel L"] by (simp add: L_def)
  then have "writelines (after_last_sentinel L) \<noteq> []"
    using assms(2) unfolding L_def [symmetric]
    by (cases "after_last_sentinel L") (auto simp: writelines_def proper_line_def tail_line_def split: if_splits)
  then have "writelines (upto_last_sentinel L) \<noteq> content" using whole by auto
  then show ?thesis using c whole by (simp add: run L_def)
qed

theorem sdf_split_drops_trailing_witness:
  "concat (parts (SDF_split [''a\<newline>$$$$ x\<newline>b\<newline>$$$$\<newline>c\<newline>''] (to_size 1))) = ''a\<newline>$$$$ x\<newline>b\<newline>$$$$\<newline>'' \<and>
   after_last_sentinel (readlines ''a\<newline>$$$$ x\<newline>b\<newline>$$$$\<newline>c\<newline>'') = [''c\<newline>'']"
proof -
  have a: "after_last_sentinel (readlines ''a\<newline>$$$$ x\<newline>b\<newline>$$$$\<newline>c\<newline>'') = [''c\<newline>'']"
    by (simp add: after_last_sentinel_def readlines_def newline_def startswith_def)
  have u: "upto_last_sentinel (readlines ''a\<newline>$$$$ x\<newline>b\<newline>$$$$\<newline>c\<newline>'') =
      [''a\<newline>'', ''$$$$ x\<newline>'', ''b\<newline>'', ''$$$$\<newline>'']"
    by (simp add: upto_last_sentinel_def readlines_def newline_def startswith_def)
  show ?thesis
    using sdf_split_drops_trailing [of 1 "''a\<newline>$$$$ x\<newline>b\<newline>$$$$\<newline>c\<newline>''"] a u
    by (simp add: writelines_def)
qed

text \<open>
  C3. The claim is that no sniffer raises on any content. \<^verbatim>\<open>FPS.sniff_prefix\<close> on an
  empty file and \<^verbatim>\<open>GRO.sniff_prefix\<close> on a file of a single line do not return
  \<open>False\<close>: the index into the list of header lines raises \<^verbatim>\<open>IndexError\<close>, which
  neither method catches.
\<close>

theorem sniff_prefix_raises_index_error:
  "FPS_sniff_prefix '''' = Inl (IndexError ''list index out of range'') \<and>
   GRO_sniff_prefix ''only one line\<newline>'' = Inl (IndexError ''list index out of range'')"
  by code_simp

text \<open>
  C4. The claim is that \<^verbatim>\<open>CIF.sniff\<close> answers \<open>True\<close> only when the first line that is
  neither empty nor a comment starts with \<^verbatim>\<open>data_\<close>. A file that holds a single comment
  line with the token \<^verbatim>\<open>_atom_site_fract_\<close> has no such line; the loop ends without a
  verdict, the whole file is read, and the answer is \<open>True\<close>.
\<close>

theorem cif_sniff_accepts_comment_only_file:
  "CIF_sniff ''# _atom_site_fract_\<newline>'' = (True, True)"
  by code_simp

text \<open>
  C6. For the fastsearch index, \<^verbatim>\<open>split\<close> raises \<^verbatim>\<open>NotImplementedError\<close> for every
  split plan, whatever it holds, and writes no part; \<^verbatim>\<open>merge\<close> raises
  \<^verbatim>\<open>NotImplementedError\<close> for every list of chunks.
\<close>

theorem obfs_split_merge_unsupported:
  "raised (OBFS_split input_datasets (Some plan)) =
     Some (NotImplementedError ''Splitting Fastsearch indices is not possible.'') \<and>
   parts (OBFS_split input_datasets (Some plan)) = [] \<and>
   OBFS_merge split_files output_file extra_merge_args =
     Some (NotImplementedError ''Merging Fastsearch indices is not supported.'')"
  by (simp add: OBFS_split_def OBFS_merge_def no_run_def)

text \<open>
  C7. The claim is that \<^verbatim>\<open>split\<close> with the mode \<^verbatim>\<open>number_of_parts\<close> raises an error
  whose message names the format being split. \<^verbatim>\<open>FPS.split\<close> raises, and writes no part,
  but its message names MOL2 files.
\<close>

theorem fps_split_number_of_parts_names_mol2:
  "raised (FPS_split [content] (Some \<lparr>split_mode = ''number_of_parts'', split_size = k\<rparr>)) =
     Some (Exception ''Split mode \"number_of_parts\" is currently not implemented for MOL2-files.'') \<and>
   parts (FPS_split [content] (Some \<lparr>split_mode = ''number_of_parts'', split_size = k\<rparr>)) = []"
  by (simp add: FPS_split_def no_run_def)

text \<open>
  C8. The claim is that a failure of metadata extraction is logged and the error detected
  is the one raised. When the reader of \<^verbatim>\<open>ase\<close> rejects a cell file with
  \<^verbatim>\<open>ValueError\<close>, \<^verbatim>\<open>Cell.set_meta\<close> logs nothing and raises \<^verbatim>\<open>UnboundLocalError\<close>
  instead: the handler reads the name \<^verbatim>\<open>e\<close>, which \<^verbatim>\<open>except ValueError:\<close> does not bind.
\<close>

theorem cell_set_meta_masks_value_error:
  "meta_raised (Cell_set_meta (Some failing_ase) ''not a cell file'' no_metadata) = Some unbound_e \<and>
   errors_logged (Cell_set_meta (Some failing_ase) ''not a cell file'' no_metadata) = [] \<and>
   ase_read failing_ase ''not a cell file'' = Inl (ValueError ''Could not parse cell'') \<and>
   unbound_e \<noteq> ValueError ''Could not parse cell''"
  by (simp add: Cell_set_meta_def failing_ase_def is_ValueError_def unbound_e_def)

text \<open>
  C9, as amended. Given at least two chunks, when the first chunk whose first line, leading
  whitespace removed, does not start with the XML declaration, or whose second line, leading
  whitespace removed, does not start with the opening of the \<^verbatim>\<open>cml\<close> element, is reached,
  \<^verbatim>\<open>CML.merge\<close> raises \<^verbatim>\<open>ValueError\<close>; the destination then holds the molecule lines of
  the chunks before it followed by the header lines read from the offending chunk, and is
  left so.
\<close>

theorem cml_merge_malformed_header:
  assumes "split_files = good @ (filename, content) # rest"
      and "2 \<le> length split_files"
      and "\<forall>chunk \<in> set good. cml_header_ok (snd chunk)"
      and "\<not> cml_header_ok content"
  shows "\<exists>msg. CML_merge split_files output_file =
           \<lparr>destination = Some (concat (map (\<lambda>chunk. molecule_lines (snd chunk)) good) @
                                  header_read content),
            merge_raised = Some (ValueError msg)\<rparr>"
proof -
  have "CML_merge split_files output_file = cml_merge_files split_files []"
    using assms(2) by (auto simp: CML_merge_def)
  also have "\<dots> = cml_merge_files ((filename, content) # rest)
                      ([] @ concat (map (\<lambda>chunk. molecule_lines (snd chunk)) good))"
    unfolding assms(1) using assms(3) by (rule cml_merge_files_goods)
  finally show ?thesis using cml_merge_files_bad [OF assms(4)] by simp
qed

theorem cml_merge_malformed_header_witness:
  "CML_merge
     [(''a.cml'', ''<?xml version=\"1.0\"?>\<newline><cml xmlns=\"http://www.xml-cml.org/schema\">\<newline><molecule/>\<newline></cml>\<newline>''),
      (''b.cml'', ''<?xml version=\"1.0\"?>\<newline><html>\<newline><molecule/>\<newline>'')] ''out.cml'' =
   \<lparr>destination = Some ''<molecule/>\<newline><?xml version=\"1.0\"?>\<newline><html>\<newline>'',
    merge_raised = Some (ValueError ''b.cml is not a CML file!'')\<rparr>"
proof -
  have g: "\<forall>chunk \<in> set [(''a.cml'', ''<?xml version=\"1.0\"?>\<newline><cml xmlns=\"http://www.xml-cml.org/schema\">\<newline><molecule/>\<newline></cml>\<newline>'')].
             cml_header_ok (snd chunk)"
    by code_simp
  have b: "\<not> cml_header_ok ''<?xml version=\"1.0\"?>\<newline><html>\<newline><molecule/>\<newline>''"
    by code_simp
  have "\<exists>msg. CML_merge
     [(''a.cml'', ''<?xml version=\"1.0\"?>\<newline><cml xmlns=\"http://www.xml-cml.org/schema\">\<newline><molecule/>\<newline></cml>\<newline>''),
      (''b.cml'', ''<?xml version=\"1.0\"?>\<newline><html>\<newline><molecule/>\<newline>'')] ''out.cml'' =
     \<lparr>destination = Some (concat (map (\<lambda>chunk. molecule_lines (snd chunk))
        [(''a.cml'', ''<?xml version=\"1.0\"?>\<newline><cml xmlns=\"http://www.xml-cml.org/schema\">\<newline><molecule/>\<newline></cml>\<newline>'')]) @
        header_read ''<?xml version=\"1.0\"?>\<newline><html>\<newline><molecule/>\<newline>''),
      merge_raised = Some (ValueError msg)\<rparr>"
    using g b by (intro cml_merge_malformed_header [where rest = "[]"]) simp_all
  moreover have "CML_merge
     [(''a.cml'', ''<?xml version=\"1.0\"?>\<newline><cml xmlns=\"http://www.xml-cml.org/schema\">\<newline><molecule/>\<newline></cml>\<newline>''),
      (''b.cml'', ''<?xml version=\"1.0\"?>\<newline><html>\<newline><molecule/>\<newline>'')] ''out.cml'' =
   \<lparr>destination = Some ''<molecule/>\<newline><?xml version=\"1.0\"?>\<newline><html>\<newline>'',
    merge_raised = Some (ValueError ''b.cml is not a CML file!'')\<rparr>"
    by code_simp
  ultimately show ?thesis by simp
qed

text \<open>
  C9 as stated fails: a first line that has the XML declaration after two spaces does not
  start with it, yet \<^verbatim>\<open>CML.merge\<close>, which strips leading whitespace before the test,
  merges the chunks without an error.
\<close>

theorem cml_merge_accepts_indented_header:
  "2 \<le> length [(''a.cml'', ''  <?xml version=\"1.0\"?>\<newline><cml xmlns=\"http://www.xml-cml.org/schema\">\<newline></cml>\<newline>''),
                (''b.cml'', ''  <?xml version=\"1.0\"?>\<newline><cml xmlns=\"http://www.xml-cml.org/schema\">\<newline></cml>\<newline>'')] \<and>
   \<not> startswith (first_line ''  <?xml version=\"1.0\"?>\<newline><cml xmlns=\"http://www.xml-cml.org/schema\">\<newline></cml>\<newline>'')
        xml_declaration \<and>
   CML_merge
     [(''a.cml'', ''  <?xml version=\"1.0\"?>\<newline><cml xmlns=\"http://www.xml-cml.org/schema\">\<newline></cml>\<newline>''),
      (''b.cml'', ''  <?xml version=\"1.0\"?>\<newline><cml xmlns=\"http://www.xml-cml.org/schema\">\<newline></cml>\<newline>'')] ''out.cml'' =
   \<lparr>destination = Some ''</cml>\<newline>'', merge_raised = None\<rparr>"
  by code_simp

end
